theory Spec2Isabelle
  imports Main "HOL-Library.Sublist"
begin

section \<open>Go runtime and library operations used by camlistored\<close>

text \<open>
  A Go call either returns or panics. Strings are byte sequences, indexed from 0; the
  slice expression \<open>s[lo:hi]\<close> panics at run time unless \<open>0 \<le> lo \<le> hi \<le> len(s)\<close>.
\<close>

datatype 'a go = Return 'a | Panic string

definition slice :: "string \<Rightarrow> int \<Rightarrow> int \<Rightarrow> string go" where
  \<comment> \<open>\<open>s[lo:hi]\<close>\<close>
  "slice s lo hi =
     (if 0 \<le> lo \<and> lo \<le> hi \<and> hi \<le> int (length s)
      then Return (take (nat (hi - lo)) (drop (nat lo) s))
      else Panic ''slice bounds out of range'')"

definition slice_from :: "string \<Rightarrow> int \<Rightarrow> string go" where
  \<comment> \<open>\<open>s[lo:]\<close>\<close>
  "slice_from s lo = slice s lo (int (length s))"

definition strings_HasPrefix :: "string \<Rightarrow> string \<Rightarrow> bool" where
  \<comment> \<open>\<open>strings.HasPrefix(s, prefix)\<close>: \<open>len(s) >= len(prefix) && s[0:len(prefix)] == prefix\<close>\<close>
  "strings_HasPrefix s p = (length p \<le> length s \<and> take (length p) s = p)"

text \<open>
  \<open>strings.Index(s, sep)\<close> is the index of the first instance of \<open>sep\<close> in \<open>s\<close>, or
  \<open>-1\<close> when there is none: the library scans \<open>i = 0, 1, ...\<close> while \<open>i + len(sep) \<le> len(s)\<close>
  and returns the first \<open>i\<close> with \<open>s[i:i+len(sep)] == sep\<close>.
\<close>

function Index_loop :: "string \<Rightarrow> string \<Rightarrow> nat \<Rightarrow> int" where
  "Index_loop s sep i =
     (if i + length sep \<le> length s
      then (if take (length sep) (drop i s) = sep then int i else Index_loop s sep (Suc i))
      else - 1)"
  by pat_completeness auto
termination
  by (relation "measure (\<lambda>(s, sep, i). Suc (length s) - i)") auto

declare Index_loop.simps [simp del]

definition strings_Index :: "string \<Rightarrow> string \<Rightarrow> int" where
  "strings_Index s sep = Index_loop s sep 0"

section \<open>Request paths\<close>

definition camliPrefix :: string where
  "camliPrefix = ''/camli/''"

definition partitionPrefix :: string where
  "partitionPrefix = ''/partition-''"

datatype error = InvalidCamliPath

text \<open>
  \<open>parseCamliPath\<close> has three named results \<open>(partitionName, action, err)\<close>; a bare
  \<open>return\<close> hands back whatever they hold at that point, so an error return still carries the
  strings assigned before it. The package's \<open>isValidPartitionName\<close> is defined in another
  file; it is the parameter \<open>isValidPartitionName\<close> here.
\<close>

definition parseCamliPath ::
  "(string \<Rightarrow> bool) \<Rightarrow> string \<Rightarrow> (string \<times> string \<times> error option) go" where
  "parseCamliPath isValidPartitionName path =
     (let camIdx = strings_Index path camliPrefix in
      if camIdx = - 1 then Return ('''', '''', Some InvalidCamliPath)
      else
        case slice_from path (camIdx + int (length camliPrefix)) of
          Panic m \<Rightarrow> Panic m
        | Return action \<Rightarrow>
            if camIdx = 0 then Return ('''', action, None)
            else if \<not> strings_HasPrefix path partitionPrefix
            then Return ('''', action, Some InvalidCamliPath)
            else
              case slice path (int (length partitionPrefix)) camIdx of
                Panic m \<Rightarrow> Panic m
              | Return partitionName \<Rightarrow>
                  if \<not> isValidPartitionName partitionName
                  then Return (partitionName, action, Some InvalidCamliPath)
                  else Return (partitionName, action, None))"

text \<open>
  Modelled from the spec: the validity predicate of partition names, whose definition
  (\<open>isValidPartitionName\<close>) is not among the sources. The spec asks for a non-empty name that
  holds neither a slash nor the partition-prefix marker. It instantiates the parameter of
  \<open>parseCamliPath\<close> at concrete inputs only.
\<close>

definition isValidPartitionName_spec :: "string \<Rightarrow> bool" where
  "isValidPartitionName_spec n =
     (n \<noteq> [] \<and> CHR ''/'' \<notin> set n \<and> \<not> sublist partitionPrefix n)"

subsection \<open>Positions of a substring\<close>

definition occurs_at :: "string \<Rightarrow> string \<Rightarrow> nat \<Rightarrow> bool" where
  \<comment> \<open>\<open>sep\<close> lies in \<open>s\<close> at index \<open>i\<close>\<close>
  "occurs_at sep s i = (i + length sep \<le> length s \<and> take (length sep) (drop i s) = sep)"

definition first_occurrence :: "string \<Rightarrow> string \<Rightarrow> nat \<Rightarrow> bool" where
  \<comment> \<open>the first occurrence of \<open>sep\<close> in \<open>s\<close> is at index \<open>i\<close>\<close>
  "first_occurrence sep s i =
     (occurs_at sep s i \<and> list_all (\<lambda>j. \<not> occurs_at sep s j) [0..<i])"

section \<open>Splitting the flag value\<close>

text \<open>
  \<open>strings.Split(s, sep, -1)\<close> cuts \<open>s\<close> at every occurrence of \<open>sep\<close> and returns all the
  pieces between them, the empty ones too; the empty string gives one empty piece. The only
  call passes the one-byte separator \<open>","\<close>, so the separator is a byte here.
\<close>

fun Split_from :: "char \<Rightarrow> string \<Rightarrow> string \<Rightarrow> string list" where
  \<comment> \<open>\<open>cur\<close> is the piece read since the last separator\<close>
  "Split_from sep cur [] = [cur]"
| "Split_from sep cur (c # s) =
     (if c = sep then cur # Split_from sep [] s else Split_from sep (cur @ [c]) s)"

definition strings_Split :: "string \<Rightarrow> char \<Rightarrow> string list" where
  "strings_Split s sep = Split_from sep [] s"

section \<open>Partitions and the package variables\<close>

text \<open>
  Partitions are handled through pointers (\<open>*partitionConfig\<close>): \<open>mainPartition\<close> is one, the
  registry \<open>queuePartitionMap\<close> stores them, and \<open>mirrors\<close> is a slice of them. The store is
  the list \<open>heap\<close>; a pointer is an index in it, and \<open>&partitionConfig{...}\<close> allocates the next
  cell. Every pointer of the program comes from an allocation, so it is below the length of
  the store.

  Modelled from the spec: the struct \<open>partitionConfig\<close>, whose declaration is not among the
  sources. Its fields are the ones the source's composite literals name, plus \<open>mirrors\<close>; the
  unkeyed literal of \<open>mainPartition\<close> gives them in the order name, writable, readable,
  queue, mirrors, urlbase (the main partition is the default read/write scope, not a queue).
\<close>

type_synonym ptr = nat

record partitionConfig =
  name :: string
  writable :: bool
  readable :: bool
  queue :: bool
  mirrors :: "ptr list"
  urlbase :: string

definition new :: "partitionConfig list \<Rightarrow> partitionConfig \<Rightarrow> ptr \<times> partitionConfig list" where
  \<comment> \<open>\<open>&partitionConfig{...}\<close>\<close>
  "new h v = (length h, h @ [v])"

record 's globals =
  flagQueuePartitions :: string
  flagRequestLog :: bool
  storage :: 's
  heap :: "partitionConfig list"
  mainPartition :: ptr
  queuePartitionMap :: "string \<rightharpoonup> ptr"

text \<open>
  The package variables when \<open>commandLineConfigurationMain\<close> reaches
  \<open>setupMirrorPartitions\<close>: the flags are parsed, \<open>storage\<close> is opened, the registry is the
  empty map made at initialisation, and the main partition
  \<open>&partitionConfig{"", true, true, false, nil, "http://localhost"}\<close> has had its \<open>urlbase\<close>
  replaced by the web server's base URL.
\<close>

definition startup_globals :: "string \<Rightarrow> bool \<Rightarrow> 's \<Rightarrow> string \<Rightarrow> 's globals" where
  "startup_globals queuePartitions requestLog stor baseURL =
     \<lparr> flagQueuePartitions = queuePartitions,
       flagRequestLog = requestLog,
       storage = stor,
       heap = [\<lparr> name = '''', writable = True, readable = True, queue = False,
                 mirrors = [], urlbase = baseURL \<rparr>],
       mainPartition = 0,
       queuePartitionMap = Map.empty \<rparr>"

datatype exit = Fatalf string

text \<open>
  The body of the loop of \<open>setupMirrorPartitions\<close>, over the names still to come.
  \<open>log.Fatalf\<close> ends the process. The body allocates the partition, sets its \<open>urlbase\<close> and
  appends the pointer to the main partition's mirrors; it has no assignment to
  \<open>queuePartitionMap\<close>.
\<close>

fun setupMirrorPartitions_loop :: "string list \<Rightarrow> 's globals \<Rightarrow> exit + 's globals" where
  "setupMirrorPartitions_loop [] g = Inr g"
| "setupMirrorPartitions_loop (partName # rest) g =
     (if queuePartitionMap g partName \<noteq> None
      then Inl (Fatalf ''Duplicate partition in --queue-partitions'')
      else
        let (part, h1) = new (heap g)
                \<lparr> name = partName, writable = False, readable = True, queue = True,
                  mirrors = [], urlbase = '''' \<rparr>;
            h2 = h1 [part := (h1 ! part)
                \<lparr> urlbase := urlbase (h1 ! mainPartition g) @ ''/partition-'' @ partName \<rparr>];
            h3 = h2 [mainPartition g := (h2 ! mainPartition g)
                \<lparr> mirrors := mirrors (h2 ! mainPartition g) @ [part] \<rparr>]
        in setupMirrorPartitions_loop rest (g \<lparr> heap := h3 \<rparr>))"

definition setupMirrorPartitions :: "'s globals \<Rightarrow> exit + 's globals" where
  "setupMirrorPartitions g =
     (let g1 = g \<lparr> queuePartitionMap := (queuePartitionMap g) ('''' \<mapsto> mainPartition g) \<rparr> in
      if flagQueuePartitions g1 = '''' then Inr g1
      else setupMirrorPartitions_loop (strings_Split (flagQueuePartitions g1) CHR '','') g1)"

section \<open>Requests, handlers and what a handler does\<close>

record request =
  Method :: string
  URL_Path :: string

text \<open>
  The blob handlers and the authentication decorator live in other packages
  (\<open>camli/blobserver/handlers\<close>, \<open>camli/auth\<close>); a handler value built from them is the term
  that names how it was built. \<open>Unsupported\<close> is the function value \<open>unsupportedHandler\<close> of
  this file.
\<close>

datatype 's handler =
    Unsupported
  | RequireAuth "'s handler"
  | CreateEnumerateHandler 's ptr
  | CreateStatHandler 's ptr
  | CreateGetHandler 's
  | CreateUploadHandler 's ptr
  | CreateRemoveHandler 's ptr
  | CreateNonStandardPutHandler 's ptr

text \<open>
  What serving a request does, in order: lines written with \<open>log.Printf\<close> (the format and
  its arguments), a client error written with \<open>httputil.BadRequestError\<close>, a call of a blob
  handler with the connection and the request, a panic.
\<close>

datatype arg = Str string | Part ptr

datatype 's event =
    LogPrintf string "arg list"
  | BadRequestError string
  | Call "'s handler" request
  | Panicking string

definition unsupportedHandler :: "request \<Rightarrow> 's event list" where
  "unsupportedHandler req = [BadRequestError ''Unsupported camlistore path or method.'']"

definition invoke :: "'s handler \<Rightarrow> request \<Rightarrow> 's event list" where
  \<comment> \<open>\<open>handler(conn, req)\<close>\<close>
  "invoke handler req =
     (case handler of Unsupported \<Rightarrow> unsupportedHandler req | _ \<Rightarrow> [Call handler req])"

text \<open>
  The two nested switches of \<open>handleCamliUsingStorage\<close>: the value of its variable
  \<open>handler\<close> when it is called. Go compares the strings byte by byte.
\<close>

definition handleCamliUsingStorage_handler ::
  "string \<Rightarrow> string \<Rightarrow> ptr \<Rightarrow> 's \<Rightarrow> 's handler" where
  "handleCamliUsingStorage_handler method action partition' stor =
     (if method = ''GET'' then
        (if action = ''enumerate-blobs'' then RequireAuth (CreateEnumerateHandler stor partition')
         else if action = ''stat'' then RequireAuth (CreateStatHandler stor partition')
         else CreateGetHandler stor)
      else if method = ''POST'' then
        (if action = ''stat'' then RequireAuth (CreateStatHandler stor partition')
         else if action = ''upload'' then RequireAuth (CreateUploadHandler stor partition')
         else if action = ''remove'' then RequireAuth (CreateRemoveHandler stor partition')
         else Unsupported)
      else if method = ''PUT'' then RequireAuth (CreateNonStandardPutHandler stor partition')
      else Unsupported)"

definition handleCamliUsingStorage ::
  "'s globals \<Rightarrow> request \<Rightarrow> string \<Rightarrow> ptr \<Rightarrow> 's \<Rightarrow> 's event list" where
  "handleCamliUsingStorage g req action partition' stor =
     (if flagRequestLog g
      then [LogPrintf ''method %q; partition %q; action %q''
              [Str (Method req), Part partition', Str action]]
      else [])
     @ invoke (handleCamliUsingStorage_handler (Method req) action partition' stor) req"

definition handleCamli :: "(string \<Rightarrow> bool) \<Rightarrow> 's globals \<Rightarrow> request \<Rightarrow> 's event list" where
  "handleCamli isValidPartitionName g req =
     (case parseCamliPath isValidPartitionName (URL_Path req) of
        Panic m \<Rightarrow> [Panicking m]
      | Return (partName, action, err) \<Rightarrow>
          if err \<noteq> None
          then LogPrintf ''Invalid request for method %q, path %q''
                 [Str (Method req), Str (URL_Path req)]
               # unsupportedHandler req
          else
            case queuePartitionMap g partName of
              None \<Rightarrow> [BadRequestError ''Unconfigured partition.'']
            | Some partition' \<Rightarrow> handleCamliUsingStorage g req action partition' (storage g))"

definition pickPartitionHandlerMaybe ::
  "(string \<Rightarrow> bool) \<Rightarrow> request \<Rightarrow>
     ('s globals \<Rightarrow> request \<Rightarrow> 's event list) option \<times> bool" where
  \<comment> \<open>the results \<open>(handler, intercept)\<close>; a \<open>nil\<close> handler is \<open>None\<close>\<close>
  "pickPartitionHandlerMaybe isValidPartitionName req =
     (if \<not> strings_HasPrefix (URL_Path req) partitionPrefix then (None, False)
      else (Some (handleCamli isValidPartitionName), True))"

section \<open>The indexer mount\<close>

definition indexer_prefix :: string where
  \<comment> \<open>\<open>const prefix = "/indexer"\<close> of \<open>makeIndexHandler\<close>\<close>
  "indexer_prefix = ''/indexer''"

text \<open>
  The function literal that \<open>makeIndexHandler\<close> returns; \<open>stor\<close> and \<open>partition'\<close> are the
  variables \<open>storage\<close> and \<open>partition\<close> it captures.
\<close>

definition indexHandler ::
  "(string \<Rightarrow> bool) \<Rightarrow> 's \<Rightarrow> ptr \<Rightarrow> 's globals \<Rightarrow> request \<Rightarrow> 's event list" where
  "indexHandler isValidPartitionName stor partition' g req =
     (if \<not> strings_HasPrefix (URL_Path req) indexer_prefix then [Panicking ''bogus request'']
      else
        case slice_from (URL_Path req) (int (length indexer_prefix)) of
          Panic m \<Rightarrow> [Panicking m]
        | Return path \<Rightarrow>
            (case parseCamliPath isValidPartitionName path of
               Panic m \<Rightarrow> [Panicking m]
             | Return (_, action, err) \<Rightarrow>
                 if err \<noteq> None
                 then LogPrintf ''Invalid request for method %q, path %q''
                        [Str (Method req), Str (URL_Path req)]
                      # unsupportedHandler req
                 else LogPrintf ''INDEXER action %s on partition %q'' [Str action, Part partition']
                      # handleCamliUsingStorage g req action partition' stor))"

definition makeIndexHandler ::
  "(string \<Rightarrow> bool) \<Rightarrow> 's \<Rightarrow> 's globals \<Rightarrow>
     ('s globals \<Rightarrow> request \<Rightarrow> 's event list) \<times> 's globals" where
  \<comment> \<open>the handler, and the package variables after the allocation of the partition\<close>
  "makeIndexHandler isValidPartitionName stor g =
     (let (partition', h) = new (heap g)
            \<lparr> name = ''indexer'', writable = True, readable = False, queue = False,
              mirrors = [], urlbase = urlbase (heap g ! mainPartition g) @ indexer_prefix \<rparr>
      in (indexHandler isValidPartitionName stor partition', g \<lparr> heap := h \<rparr>))"

section \<open>The mount adapter as the spec describes it\<close>

text \<open>
  What a handler answers: everything it does except the lines it logs.
\<close>

definition responses :: "'s event list \<Rightarrow> 's event list" where
  "responses evs = filter (\<lambda>e. case e of LogPrintf _ _ \<Rightarrow> False | _ \<Rightarrow> True) evs"

text \<open>
  The spec's account of a mounted backend: strip the mount prefix \<open>/indexer\<close>, parse the
  rest with the path grammar, and send the method and the parsed action through the dispatch
  table with the mount's own partition and backend. The partition name that the grammar
  returns is dropped; a path that does not parse answers with the unsupported-path client
  error.
\<close>

definition mount_spec :: "(string \<Rightarrow> bool) \<Rightarrow> 's \<Rightarrow> ptr \<Rightarrow> request \<Rightarrow> 's event list" where
  "mount_spec isValidPartitionName stor partition' req =
     (case parseCamliPath isValidPartitionName (drop (length ''/indexer'') (URL_Path req)) of
        Return (_, action, None) \<Rightarrow>
          invoke (handleCamliUsingStorage_handler (Method req) action partition' stor) req
      | Return (_, _, Some _) \<Rightarrow> [BadRequestError ''Unsupported camlistore path or method.'']
      | Panic m \<Rightarrow> [Panicking m])"

section \<open>The library scan finds the first occurrence\<close>

lemma Index_loop_miss:
  "Index_loop s sep i = - 1 \<longleftrightarrow> (\<forall>j\<ge>i. \<not> occurs_at sep s j)"
proof (induction s sep i rule: Index_loop.induct)
  case (1 s sep i)
  show ?case
  proof (cases "i + length sep \<le> length s")
    case False
    then have "Index_loop s sep i = - 1"
      by (simp add: Index_loop.simps [of s sep i])
    moreover from False have "\<forall>j\<ge>i. \<not> occurs_at sep s j"
      by (auto simp: occurs_at_def)
    ultimately show ?thesis by simp
  next
    case inb: True
    show ?thesis
    proof (cases "take (length sep) (drop i s) = sep")
      case True
      with inb have "Index_loop s sep i = int i" "occurs_at sep s i"
        by (simp_all add: Index_loop.simps [of s sep i] occurs_at_def)
      then show ?thesis by auto
    next
      case False
      with inb have step: "Index_loop s sep i = Index_loop s sep (Suc i)"
        by (simp add: Index_loop.simps [of s sep i])
      from False have here: "\<not> occurs_at sep s i"
        by (simp add: occurs_at_def)
      have "(\<forall>j\<ge>i. \<not> occurs_at sep s j) \<longleftrightarrow> (\<forall>j\<ge>Suc i. \<not> occurs_at sep s j)"
        using here by (metis Suc_leD Suc_leI le_neq_implies_less)
      with "1.IH" [OF inb False] step show ?thesis by simp
    qed
  qed
qed

lemma Index_loop_hit:
  "Index_loop s sep i = int k \<longleftrightarrow>
     (i \<le> k \<and> occurs_at sep s k \<and> (\<forall>j. i \<le> j \<and> j < k \<longrightarrow> \<not> occurs_at sep s j))"
proof (induction s sep i rule: Index_loop.induct)
  case (1 s sep i)
  show ?case
  proof (cases "i + length sep \<le> length s")
    case False
    then have "Index_loop s sep i = - 1"
      by (simp add: Index_loop.simps [of s sep i])
    moreover from False have "\<not> (i \<le> k \<and> occurs_at sep s k)"
      by (auto simp: occurs_at_def)
    ultimately show ?thesis by auto
  next
    case inb: True
    show ?thesis
    proof (cases "take (length sep) (drop i s) = sep")
      case True
      with inb have a: "Index_loop s sep i = int i" and b: "occurs_at sep s i"
        by (simp_all add: Index_loop.simps [of s sep i] occurs_at_def)
      show ?thesis
      proof
        assume "Index_loop s sep i = int k"
        with a have "k = i" by simp
        with b show "i \<le> k \<and> occurs_at sep s k \<and> (\<forall>j. i \<le> j \<and> j < k \<longrightarrow> \<not> occurs_at sep s j)"
          by auto
      next
        assume r: "i \<le> k \<and> occurs_at sep s k \<and> (\<forall>j. i \<le> j \<and> j < k \<longrightarrow> \<not> occurs_at sep s j)"
        have "k = i"
        proof (rule ccontr)
          assume "k \<noteq> i"
          with r have "i < k" by simp
          with r b show False by blast
        qed
        with a show "Index_loop s sep i = int k" by simp
      qed
    next
      case False
      with inb have step: "Index_loop s sep i = Index_loop s sep (Suc i)"
        by (simp add: Index_loop.simps [of s sep i])
      from False have here: "\<not> occurs_at sep s i"
        by (simp add: occurs_at_def)
      have "(i \<le> k \<and> occurs_at sep s k \<and> (\<forall>j. i \<le> j \<and> j < k \<longrightarrow> \<not> occurs_at sep s j))
            \<longleftrightarrow> (Suc i \<le> k \<and> occurs_at sep s k \<and> (\<forall>j. Suc i \<le> j \<and> j < k \<longrightarrow> \<not> occurs_at sep s j))"
        using here by (metis Suc_leD Suc_leI le_neq_implies_less)
      with "1.IH" [OF inb False] step show ?thesis by simp
    qed
  qed
qed

lemma strings_Index_first:
  "first_occurrence sep s k \<Longrightarrow> strings_Index s sep = int k"
  by (simp add: strings_Index_def Index_loop_hit first_occurrence_def list_all_iff)

lemma occurs_at_sublist: "sublist sep s \<longleftrightarrow> (\<exists>j. occurs_at sep s j)"
proof
  assume "sublist sep s"
  then obtain ps ss where "s = ps @ sep @ ss"
    by (auto simp: sublist_def)
  then have "occurs_at sep s (length ps)"
    by (simp add: occurs_at_def)
  then show "\<exists>j. occurs_at sep s j" ..
next
  assume "\<exists>j. occurs_at sep s j"
  then obtain j where j: "occurs_at sep s j" ..
  then have "s = take j s @ sep @ drop (length sep) (drop j s)"
    by (metis append_take_drop_id occurs_at_def)
  then show "sublist sep s"
    by (metis sublist_appendI)
qed

lemma strings_Index_absent:
  "\<not> sublist sep s \<Longrightarrow> strings_Index s sep = - 1"
  by (simp add: strings_Index_def Index_loop_miss occurs_at_sublist)

lemma strings_HasPrefix_iff: "strings_HasPrefix s p \<longleftrightarrow> prefix p s"
  by (metis strings_HasPrefix_def append_eq_conv_conj prefix_def prefix_length_le)

lemma strings_Index_append: "strings_Index (sep @ rest) sep = 0"
  by (simp add: strings_Index_def Index_loop.simps [of _ _ 0])

lemma strings_Index_cases:
  "strings_Index s sep = - 1 \<or> (\<exists>k. strings_Index s sep = int k \<and> first_occurrence sep s k)"
proof (cases "\<exists>j. occurs_at sep s j")
  case False
  then show ?thesis
    by (simp add: strings_Index_def Index_loop_miss)
next
  case True
  then obtain k where k: "occurs_at sep s k" and least: "\<forall>j<k. \<not> occurs_at sep s j"
    by (metis exists_least_iff)
  then have "first_occurrence sep s k"
    by (simp add: first_occurrence_def list_all_iff)
  moreover from this have "strings_Index s sep = int k"
    by (rule strings_Index_first)
  ultimately show ?thesis by blast
qed

section \<open>The path grammar\<close>

lemma prefix_marker_index:
  assumes p: "prefix partitionPrefix path" and o: "occurs_at camliPrefix path idx" and pos: "0 < idx"
  shows "length partitionPrefix \<le> idx"
proof (rule ccontr)
  assume "\<not> length partitionPrefix \<le> idx"
  then have lt: "idx < length partitionPrefix" by simp
  from o have "take (length camliPrefix) (drop idx path) ! 0 = camliPrefix ! 0"
    by (simp add: occurs_at_def)
  moreover from o have "idx < length path"
    by (simp add: occurs_at_def camliPrefix_def)
  ultimately have "path ! idx = CHR ''/''"
    by (simp add: camliPrefix_def)
  moreover from p lt have "path ! idx = partitionPrefix ! idx"
    by (auto simp: prefix_def nth_append)
  moreover from pos have "partitionPrefix ! idx = tl partitionPrefix ! (idx - 1)"
    by (simp add: nth_tl partitionPrefix_def)
  moreover from lt pos have "tl partitionPrefix ! (idx - 1) \<in> set (tl partitionPrefix)"
    by (intro nth_mem) (simp add: partitionPrefix_def)
  moreover have "CHR ''/'' \<notin> set (tl partitionPrefix)"
    by (simp add: partitionPrefix_def)
  ultimately show False by simp
qed

lemma parseCamliPath_at:
  assumes first: "first_occurrence camliPrefix path idx"
  shows "parseCamliPath isValidPartitionName path =
    (let action = drop (idx + length camliPrefix) path;
         partName = take (idx - length partitionPrefix) (drop (length partitionPrefix) path)
     in if idx = 0 then Return ('''', action, None)
        else if \<not> prefix partitionPrefix path then Return ('''', action, Some InvalidCamliPath)
        else if \<not> isValidPartitionName partName
        then Return (partName, action, Some InvalidCamliPath)
        else Return (partName, action, None))"
proof -
  from first have idx: "strings_Index path camliPrefix = int idx"
    by (rule strings_Index_first)
  from first have occ: "occurs_at camliPrefix path idx"
    by (simp add: first_occurrence_def)
  then have len: "idx + length camliPrefix \<le> length path"
    by (simp add: occurs_at_def)
  then have action: "slice_from path (int idx + int (length camliPrefix)) =
      Return (drop (idx + length camliPrefix) path)"
    by (simp add: slice_from_def slice_def nat_add_distrib)
  show ?thesis
  proof (cases "0 < idx \<and> prefix partitionPrefix path")
    case False
    then show ?thesis
      by (auto simp: parseCamliPath_def idx action strings_HasPrefix_iff Let_def)
  next
    case True
    with occ have le: "length partitionPrefix \<le> idx"
      by (blast intro: prefix_marker_index)
    with len have "slice path (int (length partitionPrefix)) (int idx) =
        Return (take (idx - length partitionPrefix) (drop (length partitionPrefix) path))"
      by (simp add: slice_def nat_diff_distrib)
    with True show ?thesis
      by (simp add: parseCamliPath_def idx action strings_HasPrefix_iff Let_def)
  qed
qed

lemma parseCamliPath_returns:
  "\<exists>partName action err. parseCamliPath isValidPartitionName path = Return (partName, action, err)"
proof -
  from strings_Index_cases [of path camliPrefix]
  consider "strings_Index path camliPrefix = - 1"
    | k where "first_occurrence camliPrefix path k"
    by blast
  then show ?thesis
  proof cases
    case 1
    then show ?thesis by (simp add: parseCamliPath_def)
  next
    case 2
    then show ?thesis
      by (simp add: parseCamliPath_at Let_def)
  qed
qed

text \<open>
  Claim C4. A path that starts with the marker \<open>/camli/\<close> (the first occurrence is then at
  index 0, whatever follows, further markers included) parses to the empty partition name,
  the rest of the path after the marker as the action, and no error.
\<close>

theorem parseCamliPath_main:
  "parseCamliPath isValidPartitionName (camliPrefix @ action) = Return ('''', action, None)"
  by (simp add: parseCamliPath_def strings_Index_append slice_from_def slice_def)

text \<open>
  Claim C5. A path that holds the marker \<open>/camli/\<close> nowhere fails to parse with the
  invalid-path error, whatever else it holds.
\<close>

theorem parseCamliPath_no_marker:
  "\<not> sublist camliPrefix path \<Longrightarrow>
   parseCamliPath isValidPartitionName path = Return ('''', '''', Some InvalidCamliPath)"
  by (simp add: parseCamliPath_def strings_Index_absent)

theorem parseCamliPath_no_marker_witness:
  "\<not> sublist camliPrefix ''/nonsense'' \<and>
   parseCamliPath isValidPartitionName_spec ''/nonsense'' = Return ('''', '''', Some InvalidCamliPath)"
proof -
  have h: "\<not> sublist camliPrefix ''/nonsense''"
    by code_simp
  from parseCamliPath_no_marker [OF h] h show ?thesis by simp
qed

text \<open>
  Claim C3. Let the first occurrence of the marker \<open>/camli/\<close> be at index \<open>idx > 0\<close>. A path
  that does not begin with \<open>/partition-\<close> fails with the invalid-path error. A path that does,
  and whose name passes the validity predicate, parses without error to the name lying
  between the end of \<open>/partition-\<close> and \<open>idx\<close> (which is not before that end) and to the
  action after the marker.
\<close>

theorem parseCamliPath_partition:
  assumes first: "first_occurrence camliPrefix path idx" and pos: "0 < idx"
  shows "(\<not> prefix partitionPrefix path \<longrightarrow>
            parseCamliPath isValidPartitionName path =
              Return ('''', drop (idx + length camliPrefix) path, Some InvalidCamliPath))
       \<and> (prefix partitionPrefix path \<and>
            isValidPartitionName
              (take (idx - length partitionPrefix) (drop (length partitionPrefix) path)) \<longrightarrow>
            length partitionPrefix \<le> idx \<and>
            parseCamliPath isValidPartitionName path =
              Return (take (idx - length partitionPrefix) (drop (length partitionPrefix) path),
                      drop (idx + length camliPrefix) path, None))"
proof (intro conjI impI)
  assume "\<not> prefix partitionPrefix path"
  with pos show "parseCamliPath isValidPartitionName path =
      Return ('''', drop (idx + length camliPrefix) path, Some InvalidCamliPath)"
    by (simp add: parseCamliPath_at [OF first] Let_def)
next
  assume "prefix partitionPrefix path \<and>
    isValidPartitionName
      (take (idx - length partitionPrefix) (drop (length partitionPrefix) path))"
  moreover from first have "occurs_at camliPrefix path idx"
    by (simp add: first_occurrence_def)
  ultimately show "length partitionPrefix \<le> idx"
    using pos by (blast intro: prefix_marker_index)
next
  assume "prefix partitionPrefix path \<and>
    isValidPartitionName
      (take (idx - length partitionPrefix) (drop (length partitionPrefix) path))"
  with pos show "parseCamliPath isValidPartitionName path =
      Return (take (idx - length partitionPrefix) (drop (length partitionPrefix) path),
              drop (idx + length camliPrefix) path, None)"
    by (simp add: parseCamliPath_at [OF first] Let_def)
qed

theorem parseCamliPath_partition_witness:
  "first_occurrence camliPrefix ''/partition-foo/camli/stat'' 14
   \<and> prefix partitionPrefix ''/partition-foo/camli/stat''
   \<and> isValidPartitionName_spec ''foo''
   \<and> parseCamliPath isValidPartitionName_spec ''/partition-foo/camli/stat'' =
       Return (''foo'', ''stat'', None)
   \<and> first_occurrence camliPrefix ''/bogus-foo/camli/stat'' 10
   \<and> \<not> prefix partitionPrefix ''/bogus-foo/camli/stat''
   \<and> parseCamliPath isValidPartitionName_spec ''/bogus-foo/camli/stat'' =
       Return ('''', ''stat'', Some InvalidCamliPath)"
proof -
  have f1: "first_occurrence camliPrefix ''/partition-foo/camli/stat'' 14"
    by code_simp
  have p1: "prefix partitionPrefix ''/partition-foo/camli/stat''"
    by (simp add: partitionPrefix_def)
  have v1: "isValidPartitionName_spec ''foo''"
    by code_simp
  have f2: "first_occurrence camliPrefix ''/bogus-foo/camli/stat'' 10"
    by code_simp
  have p2: "\<not> prefix partitionPrefix ''/bogus-foo/camli/stat''"
    by (simp add: partitionPrefix_def)
  from parseCamliPath_partition [OF f1, of isValidPartitionName_spec] p1 v1
  have r1: "parseCamliPath isValidPartitionName_spec ''/partition-foo/camli/stat'' =
       Return (''foo'', ''stat'', None)"
    by (simp add: partitionPrefix_def camliPrefix_def)
  from parseCamliPath_partition [OF f2, of isValidPartitionName_spec] p2
  have r2: "parseCamliPath isValidPartitionName_spec ''/bogus-foo/camli/stat'' =
       Return ('''', ''stat'', Some InvalidCamliPath)"
    by (simp add: partitionPrefix_def camliPrefix_def)
  from f1 p1 v1 r1 f2 p2 r2 show ?thesis by blast
qed

section \<open>The pre-route interceptor\<close>

text \<open>
  Claim C9. The interceptor claims a request, handing it to \<open>handleCamli\<close>, exactly when
  the request path begins with \<open>/partition-\<close>; for every other path it returns no handler and
  does not intercept.
\<close>

theorem pickPartitionHandlerMaybe_iff:
  "(prefix partitionPrefix (URL_Path req) \<longrightarrow>
      pickPartitionHandlerMaybe isValidPartitionName req =
        (Some (handleCamli isValidPartitionName), True))
   \<and> (\<not> prefix partitionPrefix (URL_Path req) \<longrightarrow>
      pickPartitionHandlerMaybe isValidPartitionName req = (None, False))"
  by (simp add: pickPartitionHandlerMaybe_def strings_HasPrefix_iff)

theorem pickPartitionHandlerMaybe_iff_witness:
  "prefix partitionPrefix ''/partition-foo/camli/stat''
   \<and> pickPartitionHandlerMaybe isValidPartitionName_spec
        \<lparr> Method = ''GET'', URL_Path = ''/partition-foo/camli/stat'' \<rparr> =
        (Some (handleCamli isValidPartitionName_spec ::
                 unit globals \<Rightarrow> request \<Rightarrow> unit event list), True)
   \<and> \<not> prefix partitionPrefix ''/camli/stat''
   \<and> pickPartitionHandlerMaybe isValidPartitionName_spec
        \<lparr> Method = ''GET'', URL_Path = ''/camli/stat'' \<rparr> =
        (None :: (unit globals \<Rightarrow> request \<Rightarrow> unit event list) option, False)"
proof -
  have p1: "prefix partitionPrefix ''/partition-foo/camli/stat''"
    by (simp add: partitionPrefix_def)
  have p2: "\<not> prefix partitionPrefix ''/camli/stat''"
    by (simp add: partitionPrefix_def)
  from p1 pickPartitionHandlerMaybe_iff
    [of "\<lparr> Method = ''GET'', URL_Path = ''/partition-foo/camli/stat'' \<rparr>"
        isValidPartitionName_spec]
  have 1: "pickPartitionHandlerMaybe isValidPartitionName_spec
        \<lparr> Method = ''GET'', URL_Path = ''/partition-foo/camli/stat'' \<rparr> =
        (Some (handleCamli isValidPartitionName_spec ::
                 unit globals \<Rightarrow> request \<Rightarrow> unit event list), True)"
    by simp
  from p2 pickPartitionHandlerMaybe_iff
    [of "\<lparr> Method = ''GET'', URL_Path = ''/camli/stat'' \<rparr>" isValidPartitionName_spec]
  have 2: "pickPartitionHandlerMaybe isValidPartitionName_spec
        \<lparr> Method = ''GET'', URL_Path = ''/camli/stat'' \<rparr> =
        (None :: (unit globals \<Rightarrow> request \<Rightarrow> unit event list) option, False)"
    by simp
  from p1 1 p2 2 show ?thesis by simp
qed

section \<open>The dispatch table\<close>

lemma responses_invoke: "responses (invoke h req) = invoke h req"
  by (cases h) (simp_all add: responses_def invoke_def unsupportedHandler_def)

lemma responses_handleCamliUsingStorage:
  "responses (handleCamliUsingStorage g req action p stor) =
     invoke (handleCamliUsingStorage_handler (Method req) action p stor) req"
proof -
  have "responses (handleCamliUsingStorage g req action p stor) =
      responses (invoke (handleCamliUsingStorage_handler (Method req) action p stor) req)"
    by (simp add: handleCamliUsingStorage_def responses_def)
  then show ?thesis
    by (simp add: responses_invoke)
qed

text \<open>
  Claim C2. The dispatcher \<open>handleCamliUsingStorage\<close> serves a request by the table. All it
  does is write its log line, when request logging is on, and then answer. For GET
  enumerate-blobs, GET stat, POST stat, POST upload, POST remove and PUT (with any action)
  its variable \<open>handler\<close> is the matching blob handler wrapped in the authentication
  decorator, for GET with any other action it is the blob-get handler, not wrapped, and in
  each case the answer is one call of that handler with the request. For every other pair
  of method and action the handler is \<open>unsupportedHandler\<close> and the answer is the
  unsupported-combination client error.
\<close>

theorem dispatch_table:
  "handleCamliUsingStorage g req action p stor =
     (if flagRequestLog g
      then [LogPrintf ''method %q; partition %q; action %q''
              [Str (Method req), Part p, Str action]]
      else [])
     @ responses (handleCamliUsingStorage g req action p stor)
   \<and> (Method req = ''GET'' \<and> action = ''enumerate-blobs'' \<longrightarrow>
      handleCamliUsingStorage_handler (Method req) action p stor = RequireAuth (CreateEnumerateHandler stor p)
      \<and> responses (handleCamliUsingStorage g req action p stor) = [Call (RequireAuth (CreateEnumerateHandler stor p)) req])
   \<and> (Method req = ''GET'' \<and> action = ''stat'' \<longrightarrow>
      handleCamliUsingStorage_handler (Method req) action p stor = RequireAuth (CreateStatHandler stor p)
      \<and> responses (handleCamliUsingStorage g req action p stor) = [Call (RequireAuth (CreateStatHandler stor p)) req])
   \<and> (Method req = ''POST'' \<and> action = ''stat'' \<longrightarrow>
      handleCamliUsingStorage_handler (Method req) action p stor = RequireAuth (CreateStatHandler stor p)
      \<and> responses (handleCamliUsingStorage g req action p stor) = [Call (RequireAuth (CreateStatHandler stor p)) req])
   \<and> (Method req = ''POST'' \<and> action = ''upload'' \<longrightarrow>
      handleCamliUsingStorage_handler (Method req) action p stor = RequireAuth (CreateUploadHandler stor p)
      \<and> responses (handleCamliUsingStorage g req action p stor) = [Call (RequireAuth (CreateUploadHandler stor p)) req])
   \<and> (Method req = ''POST'' \<and> action = ''remove'' \<longrightarrow>
      handleCamliUsingStorage_handler (Method req) action p stor = RequireAuth (CreateRemoveHandler stor p)
      \<and> responses (handleCamliUsingStorage g req action p stor) = [Call (RequireAuth (CreateRemoveHandler stor p)) req])
   \<and> (Method req = ''PUT'' \<longrightarrow>
      handleCamliUsingStorage_handler (Method req) action p stor = RequireAuth (CreateNonStandardPutHandler stor p)
      \<and> responses (handleCamliUsingStorage g req action p stor) = [Call (RequireAuth (CreateNonStandardPutHandler stor p)) req])
   \<and> (Method req = ''GET'' \<and> action \<noteq> ''enumerate-blobs'' \<and> action \<noteq> ''stat'' \<longrightarrow>
      handleCamliUsingStorage_handler (Method req) action p stor = CreateGetHandler stor
      \<and> responses (handleCamliUsingStorage g req action p stor) = [Call (CreateGetHandler stor) req])
   \<and> (Method req \<noteq> ''GET'' \<and> Method req \<noteq> ''PUT'' \<and>
      \<not> (Method req = ''POST'' \<and> action \<in> {''stat'', ''upload'', ''remove''}) \<longrightarrow>
      handleCamliUsingStorage_handler (Method req) action p stor = Unsupported
      \<and> responses (handleCamliUsingStorage g req action p stor) =
          [BadRequestError ''Unsupported camlistore path or method.''])"
proof -
  have served: "responses (handleCamliUsingStorage g req action p stor) =
      invoke (handleCamliUsingStorage_handler (Method req) action p stor) req"
    by (rule responses_handleCamliUsingStorage)
  have trace: "handleCamliUsingStorage g req action p stor =
     (if flagRequestLog g
      then [LogPrintf ''method %q; partition %q; action %q''
              [Str (Method req), Part p, Str action]]
      else [])
     @ responses (handleCamliUsingStorage g req action p stor)"
    unfolding served by (simp add: handleCamliUsingStorage_def)
  show ?thesis
    unfolding served
    by (intro conjI trace [unfolded served])
      (simp_all add: handleCamliUsingStorage_handler_def invoke_def unsupportedHandler_def)
qed

theorem dispatch_table_witness:
  "handleCamliUsingStorage (startup_globals ''queue-indexer'' True () ''http://localhost:3179'')
        \<lparr> Method = ''GET'', URL_Path = ''/camli/stat'' \<rparr> ''stat'' 0 () =
       [LogPrintf ''method %q; partition %q; action %q'' [Str ''GET'', Part 0, Str ''stat''],
        Call (RequireAuth (CreateStatHandler () 0)) \<lparr> Method = ''GET'', URL_Path = ''/camli/stat'' \<rparr>]
   \<and> responses (handleCamliUsingStorage (startup_globals ''queue-indexer'' True () ''http://localhost:3179'')
        \<lparr> Method = ''GET'', URL_Path = ''/camli/enumerate-blobs'' \<rparr> ''enumerate-blobs'' 0 ()) =
       [Call (RequireAuth (CreateEnumerateHandler () 0)) \<lparr> Method = ''GET'', URL_Path = ''/camli/enumerate-blobs'' \<rparr>]
   \<and> responses (handleCamliUsingStorage (startup_globals ''queue-indexer'' True () ''http://localhost:3179'')
        \<lparr> Method = ''GET'', URL_Path = ''/camli/stat'' \<rparr> ''stat'' 0 ()) =
       [Call (RequireAuth (CreateStatHandler () 0)) \<lparr> Method = ''GET'', URL_Path = ''/camli/stat'' \<rparr>]
   \<and> responses (handleCamliUsingStorage (startup_globals ''queue-indexer'' True () ''http://localhost:3179'')
        \<lparr> Method = ''POST'', URL_Path = ''/camli/stat'' \<rparr> ''stat'' 0 ()) =
       [Call (RequireAuth (CreateStatHandler () 0)) \<lparr> Method = ''POST'', URL_Path = ''/camli/stat'' \<rparr>]
   \<and> responses (handleCamliUsingStorage (startup_globals ''queue-indexer'' True () ''http://localhost:3179'')
        \<lparr> Method = ''POST'', URL_Path = ''/camli/upload'' \<rparr> ''upload'' 0 ()) =
       [Call (RequireAuth (CreateUploadHandler () 0)) \<lparr> Method = ''POST'', URL_Path = ''/camli/upload'' \<rparr>]
   \<and> responses (handleCamliUsingStorage (startup_globals ''queue-indexer'' True () ''http://localhost:3179'')
        \<lparr> Method = ''POST'', URL_Path = ''/camli/remove'' \<rparr> ''remove'' 0 ()) =
       [Call (RequireAuth (CreateRemoveHandler () 0)) \<lparr> Method = ''POST'', URL_Path = ''/camli/remove'' \<rparr>]
   \<and> responses (handleCamliUsingStorage (startup_globals ''queue-indexer'' True () ''http://localhost:3179'')
        \<lparr> Method = ''PUT'', URL_Path = ''/camli/sha1-0beec7b5'' \<rparr> ''sha1-0beec7b5'' 0 ()) =
       [Call (RequireAuth (CreateNonStandardPutHandler () 0)) \<lparr> Method = ''PUT'', URL_Path = ''/camli/sha1-0beec7b5'' \<rparr>]
   \<and> responses (handleCamliUsingStorage (startup_globals ''queue-indexer'' True () ''http://localhost:3179'')
        \<lparr> Method = ''GET'', URL_Path = ''/camli/sha1-0beec7b5'' \<rparr> ''sha1-0beec7b5'' 0 ()) =
       [Call (CreateGetHandler ()) \<lparr> Method = ''GET'', URL_Path = ''/camli/sha1-0beec7b5'' \<rparr>]
   \<and> responses (handleCamliUsingStorage (startup_globals ''queue-indexer'' True () ''http://localhost:3179'')
        \<lparr> Method = ''POST'', URL_Path = ''/camli/enumerate-blobs'' \<rparr> ''enumerate-blobs'' 0 ()) =
       [BadRequestError ''Unsupported camlistore path or method.'']
   \<and> responses (handleCamliUsingStorage (startup_globals ''queue-indexer'' True () ''http://localhost:3179'')
        \<lparr> Method = ''DELETE'', URL_Path = ''/camli/remove'' \<rparr> ''remove'' 0 ()) =
       [BadRequestError ''Unsupported camlistore path or method.'']"
proof -
  from dispatch_table [where req = "\<lparr> Method = ''GET'', URL_Path = ''/camli/enumerate-blobs'' \<rparr>"
      and action = "''enumerate-blobs''" and p = 0 and stor = "()"
      and g = "startup_globals ''queue-indexer'' True () ''http://localhost:3179''"]
  have r1: "responses (handleCamliUsingStorage (startup_globals ''queue-indexer'' True () ''http://localhost:3179'')
        \<lparr> Method = ''GET'', URL_Path = ''/camli/enumerate-blobs'' \<rparr> ''enumerate-blobs'' 0 ()) =
       [Call (RequireAuth (CreateEnumerateHandler () 0)) \<lparr> Method = ''GET'', URL_Path = ''/camli/enumerate-blobs'' \<rparr>]"
    by simp
  from dispatch_table [where req = "\<lparr> Method = ''GET'', URL_Path = ''/camli/stat'' \<rparr>"
      and action = "''stat''" and p = 0 and stor = "()"
      and g = "startup_globals ''queue-indexer'' True () ''http://localhost:3179''"]
  have r2: "responses (handleCamliUsingStorage (startup_globals ''queue-indexer'' True () ''http://localhost:3179'')
        \<lparr> Method = ''GET'', URL_Path = ''/camli/stat'' \<rparr> ''stat'' 0 ()) =
       [Call (RequireAuth (CreateStatHandler () 0)) \<lparr> Method = ''GET'', URL_Path = ''/camli/stat'' \<rparr>]"
    by simp
  from dispatch_table [where req = "\<lparr> Method = ''POST'', URL_Path = ''/camli/stat'' \<rparr>"
      and action = "''stat''" and p = 0 and stor = "()"
      and g = "startup_globals ''queue-indexer'' True () ''http://localhost:3179''"]
  have r3: "responses (handleCamliUsingStorage (startup_globals ''queue-indexer'' True () ''http://localhost:3179'')
        \<lparr> Method = ''POST'', URL_Path = ''/camli/stat'' \<rparr> ''stat'' 0 ()) =
       [Call (RequireAuth (CreateStatHandler () 0)) \<lparr> Method = ''POST'', URL_Path = ''/camli/stat'' \<rparr>]"
    by simp
  from dispatch_table [where req = "\<lparr> Method = ''POST'', URL_Path = ''/camli/upload'' \<rparr>"
      and action = "''upload''" and p = 0 and stor = "()"
      and g = "startup_globals ''queue-indexer'' True () ''http://localhost:3179''"]
  have r4: "responses (handleCamliUsingStorage (startup_globals ''queue-indexer'' True () ''http://localhost:3179'')
        \<lparr> Method = ''POST'', URL_Path = ''/camli/upload'' \<rparr> ''upload'' 0 ()) =
       [Call (RequireAuth (CreateUploadHandler () 0)) \<lparr> Method = ''POST'', URL_Path = ''/camli/upload'' \<rparr>]"
    by simp
  from dispatch_table [where req = "\<lparr> Method = ''POST'', URL_Path = ''/camli/remove'' \<rparr>"
      and action = "''remove''" and p = 0 and stor = "()"
      and g = "startup_globals ''queue-indexer'' True () ''http://localhost:3179''"]
  have r5: "responses (handleCamliUsingStorage (startup_globals ''queue-indexer'' True () ''http://localhost:3179'')
        \<lparr> Method = ''POST'', URL_Path = ''/camli/remove'' \<rparr> ''remove'' 0 ()) =
       [Call (RequireAuth (CreateRemoveHandler () 0)) \<lparr> Method = ''POST'', URL_Path = ''/camli/remove'' \<rparr>]"
    by simp
  from dispatch_table [where req = "\<lparr> Method = ''PUT'', URL_Path = ''/camli/sha1-0beec7b5'' \<rparr>"
      and action = "''sha1-0beec7b5''" and p = 0 and stor = "()"
      and g = "startup_globals ''queue-indexer'' True () ''http://localhost:3179''"]
  have r6: "responses (handleCamliUsingStorage (startup_globals ''queue-indexer'' True () ''http://localhost:3179'')
        \<lparr> Method = ''PUT'', URL_Path = ''/camli/sha1-0beec7b5'' \<rparr> ''sha1-0beec7b5'' 0 ()) =
       [Call (RequireAuth (CreateNonStandardPutHandler () 0)) \<lparr> Method = ''PUT'', URL_Path = ''/camli/sha1-0beec7b5'' \<rparr>]"
    by simp
  from dispatch_table [where req = "\<lparr> Method = ''GET'', URL_Path = ''/camli/sha1-0beec7b5'' \<rparr>"
      and action = "''sha1-0beec7b5''" and p = 0 and stor = "()"
      and g = "startup_globals ''queue-indexer'' True () ''http://localhost:3179''"]
  have r7: "responses (handleCamliUsingStorage (startup_globals ''queue-indexer'' True () ''http://localhost:3179'')
        \<lparr> Method = ''GET'', URL_Path = ''/camli/sha1-0beec7b5'' \<rparr> ''sha1-0beec7b5'' 0 ()) =
       [Call (CreateGetHandler ()) \<lparr> Method = ''GET'', URL_Path = ''/camli/sha1-0beec7b5'' \<rparr>]"
    by simp
  from dispatch_table [where req = "\<lparr> Method = ''POST'', URL_Path = ''/camli/enumerate-blobs'' \<rparr>"
      and action = "''enumerate-blobs''" and p = 0 and stor = "()"
      and g = "startup_globals ''queue-indexer'' True () ''http://localhost:3179''"]
  have r8: "responses (handleCamliUsingStorage (startup_globals ''queue-indexer'' True () ''http://localhost:3179'')
        \<lparr> Method = ''POST'', URL_Path = ''/camli/enumerate-blobs'' \<rparr> ''enumerate-blobs'' 0 ()) =
       [BadRequestError ''Unsupported camlistore path or method.'']"
    by simp
  from dispatch_table [where req = "\<lparr> Method = ''DELETE'', URL_Path = ''/camli/remove'' \<rparr>"
      and action = "''remove''" and p = 0 and stor = "()"
      and g = "startup_globals ''queue-indexer'' True () ''http://localhost:3179''"]
  have r9: "responses (handleCamliUsingStorage (startup_globals ''queue-indexer'' True () ''http://localhost:3179'')
        \<lparr> Method = ''DELETE'', URL_Path = ''/camli/remove'' \<rparr> ''remove'' 0 ()) =
       [BadRequestError ''Unsupported camlistore path or method.'']"
    by simp
  have flag: "flagRequestLog (startup_globals ''queue-indexer'' True () ''http://localhost:3179'')"
    by (simp add: startup_globals_def)
  have r0: "handleCamliUsingStorage (startup_globals ''queue-indexer'' True () ''http://localhost:3179'')
        \<lparr> Method = ''GET'', URL_Path = ''/camli/stat'' \<rparr> ''stat'' 0 () =
       [LogPrintf ''method %q; partition %q; action %q'' [Str ''GET'', Part 0, Str ''stat''],
        Call (RequireAuth (CreateStatHandler () 0)) \<lparr> Method = ''GET'', URL_Path = ''/camli/stat'' \<rparr>]"
    by (subst dispatch_table [where req = "\<lparr> Method = ''GET'', URL_Path = ''/camli/stat'' \<rparr>"
      and action = "''stat''" and p = 0 and stor = "()"
      and g = "startup_globals ''queue-indexer'' True () ''http://localhost:3179''", THEN conjunct1])
      (simp add: r2 flag)
  show ?thesis
    by (intro conjI r0 r1 r2 r3 r4 r5 r6 r7 r8 r9)
qed

section \<open>Requests for a partition that is not configured\<close>

lemma parse_unknown_upload:
  "isValidPartitionName ''unknown'' \<Longrightarrow>
   parseCamliPath isValidPartitionName ''/partition-unknown/camli/upload'' =
     Return (''unknown'', ''upload'', None)"
proof -
  assume v: "isValidPartitionName ''unknown''"
  have "first_occurrence camliPrefix ''/partition-unknown/camli/upload'' 18"
    by code_simp
  from parseCamliPath_at [OF this, of isValidPartitionName] v show ?thesis
    by (simp add: Let_def partitionPrefix_def camliPrefix_def)
qed

text \<open>
  Claim C8. When \<open>unknown\<close> is a valid partition name that the registry does not hold,
  \<open>POST /partition-unknown/camli/upload\<close> is answered with the unconfigured-partition client
  error and nothing else happens: no blob handler, the only code that reaches the backend,
  is called.
\<close>

theorem handleCamli_unconfigured:
  assumes valid: "isValidPartitionName ''unknown''"
    and absent: "queuePartitionMap g ''unknown'' = None"
  shows "handleCamli isValidPartitionName g
           \<lparr> Method = ''POST'', URL_Path = ''/partition-unknown/camli/upload'' \<rparr> =
           [BadRequestError ''Unconfigured partition.'']
       \<and> (\<forall>h r. Call h r \<notin> set (handleCamli isValidPartitionName g
           \<lparr> Method = ''POST'', URL_Path = ''/partition-unknown/camli/upload'' \<rparr>))"
  using absent valid by (simp add: handleCamli_def parse_unknown_upload)

lemma setupMirrorPartitions_queue_indexer:
  "setupMirrorPartitions (startup_globals ''queue-indexer'' rl stor url) =
     Inr \<lparr> flagQueuePartitions = ''queue-indexer'', flagRequestLog = rl, storage = stor,
           heap = [\<lparr> name = '''', writable = True, readable = True, queue = False,
                     mirrors = [1], urlbase = url \<rparr>,
                   \<lparr> name = ''queue-indexer'', writable = False, readable = True, queue = True,
                     mirrors = [], urlbase = url @ ''/partition-queue-indexer'' \<rparr>],
           mainPartition = 0,
           queuePartitionMap = ['''' \<mapsto> 0] \<rparr>"
  by (simp add: setupMirrorPartitions_def startup_globals_def strings_Split_def new_def)

theorem handleCamli_unconfigured_witness:
  "isValidPartitionName_spec ''unknown''
   \<and> (\<exists>g. setupMirrorPartitions (startup_globals ''queue-indexer'' False () ''http://localhost:3179'') = Inr g
        \<and> queuePartitionMap g ''unknown'' = None
        \<and> handleCamli isValidPartitionName_spec g
             \<lparr> Method = ''POST'', URL_Path = ''/partition-unknown/camli/upload'' \<rparr> =
             [BadRequestError ''Unconfigured partition.''])"
proof -
  have v: "isValidPartitionName_spec ''unknown''"
    by code_simp
  obtain g where g: "setupMirrorPartitions (startup_globals ''queue-indexer'' False () ''http://localhost:3179'') = Inr g"
    and absent: "queuePartitionMap g ''unknown'' = None"
    by (simp add: setupMirrorPartitions_queue_indexer)
  from handleCamli_unconfigured [of isValidPartitionName_spec g, OF v absent] g absent v show ?thesis
    by blast
qed

section \<open>The mounted handler\<close>

lemma indexHandler_stripped:
  assumes "prefix indexer_prefix (URL_Path req)"
  shows "indexHandler isValidPartitionName stor p g req =
    (case parseCamliPath isValidPartitionName (drop (length indexer_prefix) (URL_Path req)) of
       Panic m \<Rightarrow> [Panicking m]
     | Return (_, action, err) \<Rightarrow>
         if err \<noteq> None
         then LogPrintf ''Invalid request for method %q, path %q''
                [Str (Method req), Str (URL_Path req)]
              # unsupportedHandler req
         else LogPrintf ''INDEXER action %s on partition %q'' [Str action, Part p]
              # handleCamliUsingStorage g req action p stor)"
proof -
  from assms have "length indexer_prefix \<le> length (URL_Path req)"
    by (rule prefix_length_le)
  then have "slice_from (URL_Path req) (int (length indexer_prefix)) =
      Return (drop (length indexer_prefix) (URL_Path req))"
    by (simp add: slice_from_def slice_def)
  with assms show ?thesis
    by (simp add: indexHandler_def strings_HasPrefix_iff)
qed

text \<open>
  Claim C7. For a request whose path begins with \<open>/indexer\<close>, the mounted handler answers as
  the spec's account of the mount does: the path without the prefix goes through the same
  grammar and the same dispatch table, with the partition allocated by \<open>makeIndexHandler\<close>
  (name \<open>indexer\<close>, writable, not readable, not a queue) and the mounted backend, whatever
  partition name the grammar found; a path that does not parse gets the unsupported-path
  client error. The log lines the handler writes besides are left out of the comparison.
\<close>

theorem makeIndexHandler_mount:
  assumes mount: "prefix indexer_prefix (URL_Path req)"
  shows "responses (fst (makeIndexHandler isValidPartitionName stor g) g' req) =
           mount_spec isValidPartitionName stor (length (heap g)) req
       \<and> heap (snd (makeIndexHandler isValidPartitionName stor g)) ! length (heap g) =
           \<lparr> name = ''indexer'', writable = True, readable = False, queue = False,
             mirrors = [], urlbase = urlbase (heap g ! mainPartition g) @ ''/indexer'' \<rparr>"
proof
  obtain pn a e where parse:
    "parseCamliPath isValidPartitionName (drop (length indexer_prefix) (URL_Path req)) =
       Return (pn, a, e)"
    using parseCamliPath_returns by blast
  have handler: "fst (makeIndexHandler isValidPartitionName stor g) g' req =
      indexHandler isValidPartitionName stor (length (heap g)) g' req"
    by (simp add: makeIndexHandler_def new_def)
  show "responses (fst (makeIndexHandler isValidPartitionName stor g) g' req) =
           mount_spec isValidPartitionName stor (length (heap g)) req"
  proof (cases e)
    case None
    with parse have "indexHandler isValidPartitionName stor (length (heap g)) g' req =
        LogPrintf ''INDEXER action %s on partition %q'' [Str a, Part (length (heap g))]
          # handleCamliUsingStorage g' req a (length (heap g)) stor"
      by (simp add: indexHandler_stripped [OF mount])
    then have "responses (indexHandler isValidPartitionName stor (length (heap g)) g' req) =
        invoke (handleCamliUsingStorage_handler (Method req) a (length (heap g)) stor) req"
      using responses_handleCamliUsingStorage [of g' req a "length (heap g)" stor]
      by (simp add: responses_def)
    moreover from parse None have "mount_spec isValidPartitionName stor (length (heap g)) req =
        invoke (handleCamliUsingStorage_handler (Method req) a (length (heap g)) stor) req"
      by (simp add: mount_spec_def indexer_prefix_def)
    ultimately show ?thesis
      by (simp add: handler)
  next
    case (Some err)
    with parse have "indexHandler isValidPartitionName stor (length (heap g)) g' req =
        LogPrintf ''Invalid request for method %q, path %q'' [Str (Method req), Str (URL_Path req)]
          # unsupportedHandler req"
      by (simp add: indexHandler_stripped [OF mount])
    then have "responses (indexHandler isValidPartitionName stor (length (heap g)) g' req) =
        [BadRequestError ''Unsupported camlistore path or method.'']"
      by (simp add: responses_def unsupportedHandler_def)
    moreover from parse Some have "mount_spec isValidPartitionName stor (length (heap g)) req =
        [BadRequestError ''Unsupported camlistore path or method.'']"
      by (simp add: mount_spec_def indexer_prefix_def)
    ultimately show ?thesis
      by (simp add: handler)
  qed
next
  show "heap (snd (makeIndexHandler isValidPartitionName stor g)) ! length (heap g) =
           \<lparr> name = ''indexer'', writable = True, readable = False, queue = False,
             mirrors = [], urlbase = urlbase (heap g ! mainPartition g) @ ''/indexer'' \<rparr>"
    by (simp add: makeIndexHandler_def new_def indexer_prefix_def)
qed

lemma mount_spec_partition_token:
  "mount_spec isValidPartitionName_spec () (Suc 0)
     \<lparr> Method = ''GET'', URL_Path = ''/indexer/partition-foo/camli/stat'' \<rparr> =
     [Call (RequireAuth (CreateStatHandler () (Suc 0)))
        \<lparr> Method = ''GET'', URL_Path = ''/indexer/partition-foo/camli/stat'' \<rparr>]"
proof -
  have "first_occurrence camliPrefix ''/partition-foo/camli/stat'' 14"
    by code_simp
  moreover have "isValidPartitionName_spec ''foo''"
    by code_simp
  ultimately have "parseCamliPath isValidPartitionName_spec ''/partition-foo/camli/stat'' =
      Return (''foo'', ''stat'', None)"
    by (simp add: parseCamliPath_at Let_def partitionPrefix_def camliPrefix_def)
  then show ?thesis
    by (simp add: mount_spec_def handleCamliUsingStorage_handler_def invoke_def)
qed

lemma mount_spec_nonsense:
  "mount_spec isValidPartitionName_spec () (Suc 0)
     \<lparr> Method = ''GET'', URL_Path = ''/indexer/nonsense'' \<rparr> =
     [BadRequestError ''Unsupported camlistore path or method.'']"
proof -
  have "\<not> sublist camliPrefix ''/nonsense''"
    by code_simp
  then have "parseCamliPath isValidPartitionName_spec ''/nonsense'' =
      Return ('''', '''', Some InvalidCamliPath)"
    by (simp add: parseCamliPath_def strings_Index_absent)
  then show ?thesis
    by (simp add: mount_spec_def)
qed

theorem makeIndexHandler_mount_witness:
  "prefix indexer_prefix ''/indexer/partition-foo/camli/stat''
   \<and> responses (fst (makeIndexHandler isValidPartitionName_spec ()
          (startup_globals ''queue-indexer'' False () ''http://localhost:3179''))
        (startup_globals ''queue-indexer'' True () ''http://localhost:3179'')
        \<lparr> Method = ''GET'', URL_Path = ''/indexer/partition-foo/camli/stat'' \<rparr>) =
       [Call (RequireAuth (CreateStatHandler () 1))
          \<lparr> Method = ''GET'', URL_Path = ''/indexer/partition-foo/camli/stat'' \<rparr>]
   \<and> prefix indexer_prefix ''/indexer/nonsense''
   \<and> responses (fst (makeIndexHandler isValidPartitionName_spec ()
          (startup_globals ''queue-indexer'' False () ''http://localhost:3179''))
        (startup_globals ''queue-indexer'' True () ''http://localhost:3179'')
        \<lparr> Method = ''GET'', URL_Path = ''/indexer/nonsense'' \<rparr>) =
       [BadRequestError ''Unsupported camlistore path or method.'']"
proof -
  let ?g = "startup_globals ''queue-indexer'' False () ''http://localhost:3179''"
  let ?g' = "startup_globals ''queue-indexer'' True () ''http://localhost:3179''"
  have len: "length (heap ?g) = 1"
    by (simp add: startup_globals_def)
  have p1: "prefix indexer_prefix ''/indexer/partition-foo/camli/stat''"
    by (simp add: indexer_prefix_def)
  have p2: "prefix indexer_prefix ''/indexer/nonsense''"
    by (simp add: indexer_prefix_def)
  from p1 makeIndexHandler_mount
    [of "\<lparr> Method = ''GET'', URL_Path = ''/indexer/partition-foo/camli/stat'' \<rparr>"
        isValidPartitionName_spec "()" ?g ?g']
  have 1: "responses (fst (makeIndexHandler isValidPartitionName_spec () ?g) ?g'
        \<lparr> Method = ''GET'', URL_Path = ''/indexer/partition-foo/camli/stat'' \<rparr>) =
       [Call (RequireAuth (CreateStatHandler () 1))
          \<lparr> Method = ''GET'', URL_Path = ''/indexer/partition-foo/camli/stat'' \<rparr>]"
    by (simp add: len mount_spec_partition_token)
  from p2 makeIndexHandler_mount
    [of "\<lparr> Method = ''GET'', URL_Path = ''/indexer/nonsense'' \<rparr>"
        isValidPartitionName_spec "()" ?g ?g']
  have 2: "responses (fst (makeIndexHandler isValidPartitionName_spec () ?g) ?g'
        \<lparr> Method = ''GET'', URL_Path = ''/indexer/nonsense'' \<rparr>) =
       [BadRequestError ''Unsupported camlistore path or method.'']"
    by (simp add: len mount_spec_nonsense)
  show ?thesis
    by (intro conjI p1 p2 1 2)
qed

lemma invoke_no_panic: "Panicking m \<notin> set (invoke h req)"
  by (cases h) (simp_all add: invoke_def unsupportedHandler_def)

lemma handleCamliUsingStorage_no_panic:
  "Panicking m \<notin> set (handleCamliUsingStorage g req action p stor)"
  by (simp add: handleCamliUsingStorage_def invoke_no_panic)

text \<open>
  Claim C10. The handler that \<open>makeIndexHandler\<close> returns panics, and does nothing else, on a
  request whose path does not begin with \<open>/indexer\<close>; on a path that begins with it, the
  handler never panics.
\<close>

theorem indexHandler_panic:
  "(\<not> prefix indexer_prefix (URL_Path req) \<longrightarrow>
      fst (makeIndexHandler isValidPartitionName stor g) g' req = [Panicking ''bogus request''])
   \<and> (prefix indexer_prefix (URL_Path req) \<longrightarrow>
      (\<forall>m. Panicking m \<notin> set (fst (makeIndexHandler isValidPartitionName stor g) g' req)))"
proof (intro conjI impI allI)
  assume "\<not> prefix indexer_prefix (URL_Path req)"
  then show "fst (makeIndexHandler isValidPartitionName stor g) g' req = [Panicking ''bogus request'']"
    by (simp add: makeIndexHandler_def new_def indexHandler_def strings_HasPrefix_iff)
next
  fix m
  assume p: "prefix indexer_prefix (URL_Path req)"
  obtain pn a e where
    "parseCamliPath isValidPartitionName (drop (length indexer_prefix) (URL_Path req)) =
       Return (pn, a, e)"
    using parseCamliPath_returns by blast
  then show "Panicking m \<notin> set (fst (makeIndexHandler isValidPartitionName stor g) g' req)"
    by (simp add: makeIndexHandler_def new_def indexHandler_stripped [OF p]
        unsupportedHandler_def handleCamliUsingStorage_no_panic)
qed

theorem indexHandler_panic_witness:
  "\<not> prefix indexer_prefix ''/camli/stat''
   \<and> fst (makeIndexHandler isValidPartitionName_spec () (startup_globals ''queue-indexer'' False () ''http://localhost:3179''))
        (startup_globals ''queue-indexer'' False () ''http://localhost:3179'')
        \<lparr> Method = ''GET'', URL_Path = ''/camli/stat'' \<rparr> = [Panicking ''bogus request'']
   \<and> prefix indexer_prefix ''/indexer/camli/stat''
   \<and> (\<forall>m. Panicking m \<notin> set (fst (makeIndexHandler isValidPartitionName_spec ()
            (startup_globals ''queue-indexer'' False () ''http://localhost:3179''))
          (startup_globals ''queue-indexer'' False () ''http://localhost:3179'')
          \<lparr> Method = ''GET'', URL_Path = ''/indexer/camli/stat'' \<rparr>))"
proof -
  have p1: "\<not> prefix indexer_prefix ''/camli/stat''"
    by (simp add: indexer_prefix_def)
  have p2: "prefix indexer_prefix ''/indexer/camli/stat''"
    by (simp add: indexer_prefix_def)
  from p1 indexHandler_panic [of "\<lparr> Method = ''GET'', URL_Path = ''/camli/stat'' \<rparr>"
      isValidPartitionName_spec "()" "startup_globals ''queue-indexer'' False () ''http://localhost:3179''"
      "startup_globals ''queue-indexer'' False () ''http://localhost:3179''"]
  have 1: "fst (makeIndexHandler isValidPartitionName_spec () (startup_globals ''queue-indexer'' False () ''http://localhost:3179''))
        (startup_globals ''queue-indexer'' False () ''http://localhost:3179'')
        \<lparr> Method = ''GET'', URL_Path = ''/camli/stat'' \<rparr> = [Panicking ''bogus request'']"
    by simp
  from p2 indexHandler_panic [of "\<lparr> Method = ''GET'', URL_Path = ''/indexer/camli/stat'' \<rparr>"
      isValidPartitionName_spec "()" "startup_globals ''queue-indexer'' False () ''http://localhost:3179''"
      "startup_globals ''queue-indexer'' False () ''http://localhost:3179''"]
  have 2: "\<forall>m. Panicking m \<notin> set (fst (makeIndexHandler isValidPartitionName_spec ()
            (startup_globals ''queue-indexer'' False () ''http://localhost:3179''))
          (startup_globals ''queue-indexer'' False () ''http://localhost:3179'')
          \<lparr> Method = ''GET'', URL_Path = ''/indexer/camli/stat'' \<rparr>)"
    by simp
  from p1 1 p2 2 show ?thesis by simp
qed

section \<open>Building the mirrors\<close>

text \<open>
  Claim C6. With the flag value \<open>a,b\<close> and a registry that holds neither name,
  \<open>setupMirrorPartitions\<close> returns, and the main partition's mirrors are the old ones followed
  by exactly two new partitions: \<open>a\<close> and \<open>b\<close>, each readable, not writable, a queue, with the
  main partition's \<open>urlbase\<close> followed by \<open>/partition-\<close> and the name as its \<open>urlbase\<close>.
\<close>

theorem setupMirrorPartitions_a_b:
  assumes flag: "flagQueuePartitions g = ''a,b''"
    and fresh: "queuePartitionMap g ''a'' = None" "queuePartitionMap g ''b'' = None"
    and main: "mainPartition g < length (heap g)"
  shows "\<exists>g'. setupMirrorPartitions g = Inr g'
     \<and> mirrors (heap g' ! mainPartition g') =
         mirrors (heap g ! mainPartition g) @ [length (heap g), Suc (length (heap g))]
     \<and> heap g' ! length (heap g) =
         \<lparr> name = ''a'', writable = False, readable = True, queue = True, mirrors = [],
           urlbase = urlbase (heap g ! mainPartition g) @ ''/partition-'' @ ''a'' \<rparr>
     \<and> heap g' ! Suc (length (heap g)) =
         \<lparr> name = ''b'', writable = False, readable = True, queue = True, mirrors = [],
           urlbase = urlbase (heap g ! mainPartition g) @ ''/partition-'' @ ''b'' \<rparr>
     \<and> length (heap g') = length (heap g) + 2
     \<and> mainPartition g' = mainPartition g"
  using assms
  by (simp add: setupMirrorPartitions_def strings_Split_def new_def Let_def
      nth_append list_update_append)

theorem setupMirrorPartitions_a_b_witness:
  "flagQueuePartitions (startup_globals ''a,b'' False () ''http://localhost:3179'') = ''a,b''
   \<and> queuePartitionMap (startup_globals ''a,b'' False () ''http://localhost:3179'') ''a'' = None
   \<and> queuePartitionMap (startup_globals ''a,b'' False () ''http://localhost:3179'') ''b'' = None
   \<and> mainPartition (startup_globals ''a,b'' False () ''http://localhost:3179'')
       < length (heap (startup_globals ''a,b'' False () ''http://localhost:3179''))
   \<and> (\<exists>g'. setupMirrorPartitions (startup_globals ''a,b'' False () ''http://localhost:3179'') = Inr g'
        \<and> mirrors (heap g' ! mainPartition g') = [1, 2]
        \<and> heap g' ! 1 =
            \<lparr> name = ''a'', writable = False, readable = True, queue = True, mirrors = [],
              urlbase = ''http://localhost:3179/partition-a'' \<rparr>
        \<and> heap g' ! 2 =
            \<lparr> name = ''b'', writable = False, readable = True, queue = True, mirrors = [],
              urlbase = ''http://localhost:3179/partition-b'' \<rparr>
        \<and> length (heap g') = 3 \<and> mainPartition g' = 0)"
proof -
  let ?g = "startup_globals ''a,b'' False () ''http://localhost:3179''"
  have h1: "flagQueuePartitions ?g = ''a,b''"
    and h2: "queuePartitionMap ?g ''a'' = None"
    and h3: "queuePartitionMap ?g ''b'' = None"
    and h4: "mainPartition ?g < length (heap ?g)"
    by (simp_all add: startup_globals_def)
  have eq: "heap ?g = [\<lparr> name = '''', writable = True, readable = True, queue = False,
      mirrors = [], urlbase = ''http://localhost:3179'' \<rparr>]" "mainPartition ?g = 0"
    by (simp_all add: startup_globals_def)
  from setupMirrorPartitions_a_b [OF h1 h2 h3 h4]
  have h5: "\<exists>g'. setupMirrorPartitions ?g = Inr g'
        \<and> mirrors (heap g' ! mainPartition g') = [1, 2]
        \<and> heap g' ! 1 =
            \<lparr> name = ''a'', writable = False, readable = True, queue = True, mirrors = [],
              urlbase = ''http://localhost:3179/partition-a'' \<rparr>
        \<and> heap g' ! 2 =
            \<lparr> name = ''b'', writable = False, readable = True, queue = True, mirrors = [],
              urlbase = ''http://localhost:3179/partition-b'' \<rparr>
        \<and> length (heap g') = 3 \<and> mainPartition g' = 0"
    by (simp add: eq numeral_2_eq_2 numeral_3_eq_3)
  show ?thesis
    by (intro conjI h1 h2 h3 h4 h5)
qed

lemma setupMirrorPartitions_loop_registry:
  "setupMirrorPartitions_loop names g = Inr g' \<Longrightarrow> queuePartitionMap g' = queuePartitionMap g"
  by (induction names arbitrary: g) (auto simp: new_def Let_def split: if_splits)

lemma setupMirrorPartitions_registry:
  "setupMirrorPartitions g = Inr g' \<Longrightarrow>
   queuePartitionMap g' = (queuePartitionMap g) ('''' \<mapsto> mainPartition g)"
  by (auto simp: setupMirrorPartitions_def Let_def split: if_splits
      dest: setupMirrorPartitions_loop_registry)

text \<open>
  Claim C1 says that a flag value with the same name twice ends the process, and that every
  mirror built from distinct names can be looked up in the registry. The loop never stores
  a mirror in \<open>queuePartitionMap\<close>, so its duplicate check only ever sees the main partition's
  empty name: with \<open>a,a\<close> the start-up goes on with two mirrors named \<open>a\<close>, and with \<open>a,b\<close>
  neither \<open>a\<close> nor \<open>b\<close> is in the registry afterwards.
\<close>

theorem setupMirrorPartitions_duplicate_accepted:
  "(\<exists>g'. setupMirrorPartitions (startup_globals ''a,a'' rl stor url) = Inr g'
      \<and> map (\<lambda>p. name (heap g' ! p)) (mirrors (heap g' ! mainPartition g')) = [''a'', ''a'']
      \<and> queuePartitionMap g' ''a'' = None)
   \<and> (\<exists>g'. setupMirrorPartitions (startup_globals ''a,b'' rl stor url) = Inr g'
      \<and> map (\<lambda>p. name (heap g' ! p)) (mirrors (heap g' ! mainPartition g')) = [''a'', ''b'']
      \<and> queuePartitionMap g' ''a'' = None \<and> queuePartitionMap g' ''b'' = None)"
  by (simp add: setupMirrorPartitions_def startup_globals_def strings_Split_def new_def)

end
